theory Spec2Isabelle
  imports Main
begin

section \<open>Common vocabulary\<close>

text \<open>
  Object ids are Python integers. Every exception the modelled code can raise is a
  constructor of \<open>exn\<close>; a function that may raise returns \<open>exn + 'a\<close>, with \<open>Inl\<close> for
  the exception.
\<close>

type_synonym oid = int

datatype exn =
    TypeError
  | KeyError
  | IndexError
  | AttributeError
  | NotFound
  | MethodNotFound
  | PlaceholderNotInstantiatedError
  | OtherError string

section \<open>Remote invocation: \<open>RunClassMethodService.process\<close>\<close>

text \<open>
  A Python value handled by the service is either a \<open>Pointer\<close> (an instance of
  \<open>Pointer\<close> or of a subclass, which is what \<open>issubclass(type(x), Pointer)\<close> tests) or
  any other object. The payload of other objects is opaque to the service.
\<close>

datatype 'v pyobj =
    Pointer (ptr_location: string) (ptr_id_at_location: oid)
  | Local 'v

type_synonym 'v object_store = "oid \<rightharpoonup> 'v pyobj"

type_synonym 'v kwargs = "(string \<times> 'v pyobj) list"

type_synonym 'v callable = "'v pyobj \<Rightarrow> 'v pyobj list \<Rightarrow> 'v kwargs \<Rightarrow> exn + 'v pyobj"

text \<open>\<open>RunClassMethodMessage\<close>: the fields \<open>process\<close> reads, and \<open>kwargs\<close>.\<close>

record 'v run_class_method_message =
  msg_self :: "'v pyobj"
  args :: "'v pyobj list"
  kwargs :: "'v kwargs"
  path :: string
  id_at_location :: oid

text \<open>
  The node: its object store and its \<open>frameworks\<close> dispatch, which maps a method path to
  a callable or raises. The callable is an external collaborator; it is taken as a
  function of the receiver, the positional and the keyword arguments.
\<close>

record 'v node =
  store :: "'v object_store"
  frameworks :: "string \<Rightarrow> exn + 'v callable"

definition get_object :: "'v object_store \<Rightarrow> oid \<Rightarrow> exn + 'v pyobj" where
  \<comment> \<open>Modelled from the spec: the object store class is not among the sources;
      \<open>get(id)\<close> fails with \<open>NotFound\<close> if the id is absent.\<close>
  "get_object st i = (case st i of None \<Rightarrow> Inl NotFound | Some v \<Rightarrow> Inr v)"

definition store_object :: "'v object_store \<Rightarrow> oid \<Rightarrow> 'v pyobj \<Rightarrow> 'v object_store" where
  \<comment> \<open>Modelled from the spec: the object store class is not among the sources;
      \<open>put(id, obj)\<close> overwrites.\<close>
  "store_object st i v = st(i \<mapsto> v)"

text \<open>Steps 1a and the body of the loop of step 1b: one value, pointer or not.\<close>

definition resolve :: "'v object_store \<Rightarrow> 'v pyobj \<Rightarrow> exn + 'v pyobj" where
  "resolve st x =
     (case x of
        Pointer loc i \<Rightarrow> get_object st i
      | Local v \<Rightarrow> Inr x)"

text \<open>Step 1b: the loop over \<open>args_with_pointers\<close>, appending to \<open>args_with_objects\<close>.\<close>

fun resolve_args :: "'v object_store \<Rightarrow> 'v pyobj list \<Rightarrow> 'v pyobj list \<Rightarrow> exn + 'v pyobj list" where
  "resolve_args st [] args_with_objects = Inr args_with_objects"
| "resolve_args st (arg # rest) args_with_objects =
     (case resolve st arg of
        Inl e \<Rightarrow> Inl e
      | Inr v \<Rightarrow> resolve_args st rest (args_with_objects @ [v]))"

text \<open>
  Step 1c: the loop over the items of \<open>kwargs_with_objects\<close>. Its body assigns to
  \<open>args_with_objects[name]\<close>, a list indexed by a string, which raises \<open>TypeError\<close>
  once the right-hand side has been evaluated.
\<close>

fun resolve_kwargs :: "'v object_store \<Rightarrow> 'v kwargs \<Rightarrow> 'v pyobj list \<Rightarrow> exn + 'v pyobj list" where
  "resolve_kwargs st [] args_with_objects = Inr args_with_objects"
| "resolve_kwargs st ((name, kwarg) # rest) args_with_objects =
     (case resolve st kwarg of
        Inl e \<Rightarrow> Inl e
      | Inr v \<Rightarrow> Inl TypeError)"

text \<open>
  Step 1 as a whole: the receiver, the positional and the keyword arguments the method
  is called with. \<open>kwargs_with_objects\<close> is the empty dictionary created at the top of
  \<open>process\<close>; the line that would read \<open>msg.kwargs\<close> is commented out in the source.
\<close>

definition call_arguments ::
  "'v node \<Rightarrow> 'v run_class_method_message \<Rightarrow> exn + ('v pyobj \<times> 'v pyobj list \<times> 'v kwargs)" where
  "call_arguments nd msg =
     (let self_possibly_pointer = msg_self msg;
          args_with_pointers = args msg;
          kwargs_with_objects = []
      in case resolve (store nd) self_possibly_pointer of
           Inl e \<Rightarrow> Inl e
         | Inr self_is_object \<Rightarrow>
             (case resolve_args (store nd) args_with_pointers [] of
                Inl e \<Rightarrow> Inl e
              | Inr args_with_objects \<Rightarrow>
                  (case resolve_kwargs (store nd) kwargs_with_objects args_with_objects of
                     Inl e \<Rightarrow> Inl e
                   | Inr args_with_objects' \<Rightarrow>
                       Inr (self_is_object, args_with_objects', kwargs_with_objects))))"

text \<open>
  \<open>process\<close>: steps 1 to 3. The result pairs the outcome (\<open>Inl\<close> the exception that
  escapes, \<open>Inr ()\<close> for the normal return of \<open>None\<close>) with the node afterwards.
\<close>

definition process ::
  "'v node \<Rightarrow> 'v run_class_method_message \<Rightarrow> (exn + unit) \<times> 'v node" where
  "process nd msg =
     (let result_id_at_location = id_at_location msg
      in case call_arguments nd msg of
           Inl e \<Rightarrow> (Inl e, nd)
         | Inr (self_is_object, args_with_objects, kwargs_with_objects) \<Rightarrow>
             (case frameworks nd (path msg) of
                Inl e \<Rightarrow> (Inl e, nd)
              | Inr f \<Rightarrow>
                  (case f self_is_object args_with_objects kwargs_with_objects of
                     Inl e \<Rightarrow> (Inl e, nd)
                   | Inr result \<Rightarrow>
                       (Inr (),
                        nd\<lparr>store := store_object (store nd) result_id_at_location result\<rparr>))))"

text \<open>A pointer whose id is not a key of the store.\<close>

definition dangling :: "'v object_store \<Rightarrow> 'v pyobj \<Rightarrow> bool" where
  "dangling st x = (case x of Pointer loc i \<Rightarrow> st i = None | Local v \<Rightarrow> False)"

text \<open>Example inputs.\<close>

definition echo_method :: "int callable" where
  "echo_method slf as kw = Inr (Local (int (length as) + 10 * int (length kw)))"

definition example_node :: "int node" where
  "example_node =
     \<lparr>store = [7 \<mapsto> Local 42],
      frameworks = (\<lambda>p. if p = ''m'' then Inr echo_method else Inl MethodNotFound)\<rparr>"

definition kwargs_message :: "int run_class_method_message" where
  "kwargs_message =
     \<lparr>msg_self = Local 1, args = [], kwargs = [(''k'', Pointer ''A'' 7)],
      path = ''m'', id_at_location = 9\<rparr>"

definition dangling_kwarg_message :: "int run_class_method_message" where
  "dangling_kwarg_message =
     \<lparr>msg_self = Local 1, args = [], kwargs = [(''k'', Pointer ''A'' 8)],
      path = ''m'', id_at_location = 9\<rparr>"

section \<open>Protocol execution: \<open>ProtocolExecution\<close>\<close>

text \<open>
  A placeholder is a slot with an id and a \<open>child\<close>, its bound value, \<open>None\<close> while it
  is not instantiated. A role is a template: its actions, its own placeholders and the
  ids of its output placeholders. The classes \<open>Role\<close> and \<open>PlaceHolder\<close> are not among
  the sources; only the fields that \<open>ProtocolExecution\<close> reads are kept.
\<close>

record 'v placeholder =
  ph_id :: oid
  child :: "'v option"

record ('a, 'v) role =
  actions :: "'a list"
  role_placeholders :: "oid \<rightharpoonup> 'v placeholder"
  output_placeholder_ids :: "oid list"

record ('a, 'v) protocol_execution =
  role :: "('a, 'v) role"
  placeholders :: "oid \<rightharpoonup> 'v placeholder"
  role_assignments :: "(string \<times> string) list"
  next_action_index :: nat

text \<open>
  \<open>Role._execute_action\<close> is an external collaborator, taken as a parameter: applied to
  an action and the role it returns the exception it raises, if any, and the role
  afterwards. It is given the role only, so it cannot reach the cursor or the private
  placeholder copies of the execution.
\<close>

type_synonym ('a, 'v) execute_action = "'a \<Rightarrow> ('a, 'v) role \<Rightarrow> exn option \<times> ('a, 'v) role"

text \<open>\<open>__init__\<close>: every placeholder of the role is copied with its value cleared.\<close>

definition ProtocolExecution_init ::
  "('a, 'v) role \<Rightarrow> (string \<times> string) list \<Rightarrow> ('a, 'v) protocol_execution" where
  "ProtocolExecution_init rl ra =
     \<lparr>role = rl,
      placeholders =
        (\<lambda>i. case role_placeholders rl i of
                None \<Rightarrow> None
              | Some ph \<Rightarrow> Some (ph\<lparr>child := None, ph_id := ph_id ph\<rparr>)),
      role_assignments = ra,
      next_action_index = 0\<rparr>"

text \<open>
  The \<open>for\<close> loop of \<open>execute\<close> over the slice \<open>actions[_next_action_index:]\<close>, which
  is a copy taken when the loop starts. The loop is left in one of three ways: the slice
  is exhausted, the \<open>except\<close> clause returns, or another exception escapes.
\<close>

datatype loop_exit = Exhausted | Returned_False | Raised exn

fun run_actions ::
  "('a, 'v) execute_action \<Rightarrow> 'a list \<Rightarrow> ('a, 'v) protocol_execution
     \<Rightarrow> loop_exit \<times> ('a, 'v) protocol_execution" where
  "run_actions ea [] pe = (Exhausted, pe)"
| "run_actions ea (action # rest) pe =
     (case ea action (role pe) of
        (None, rl) \<Rightarrow>
          run_actions ea rest (pe\<lparr>role := rl, next_action_index := next_action_index pe + 1\<rparr>)
      | (Some e, rl) \<Rightarrow>
          (if e = PlaceholderNotInstantiatedError then (Returned_False, pe\<lparr>role := rl\<rparr>)
           else (Raised e, pe\<lparr>role := rl\<rparr>)))"

text \<open>The list comprehension \<open>[self.placeholders[output_id] for output_id in ...]\<close>.\<close>

fun output_placeholders :: "(oid \<rightharpoonup> 'p) \<Rightarrow> oid list \<Rightarrow> exn + 'p list" where
  "output_placeholders phs [] = Inr []"
| "output_placeholders phs (output_id # rest) =
     (case phs output_id of
        None \<Rightarrow> Inl KeyError
      | Some p \<Rightarrow>
          (case output_placeholders phs rest of
             Inl e \<Rightarrow> Inl e
           | Inr ps \<Rightarrow> Inr (p # ps)))"

text \<open>
  \<open>execute\<close> returns a pair of a flag and either \<open>None\<close> or the tuple of the output
  placeholders' children.
\<close>

definition execute ::
  "('a, 'v) execute_action \<Rightarrow> ('a, 'v) protocol_execution
     \<Rightarrow> (exn + bool \<times> 'v option list option) \<times> ('a, 'v) protocol_execution" where
  "execute ea pe =
     (case run_actions ea (drop (next_action_index pe) (actions (role pe))) pe of
        (Returned_False, pe') \<Rightarrow> (Inr (False, None), pe')
      | (Raised e, pe') \<Rightarrow> (Inl e, pe')
      | (Exhausted, pe') \<Rightarrow>
          (if length (output_placeholder_ids (role pe')) = 0 then (Inr (True, None), pe')
           else (case output_placeholders (placeholders pe') (output_placeholder_ids (role pe')) of
                   Inl e \<Rightarrow> (Inl e, pe')
                 | Inr ps \<Rightarrow> (Inr (True, Some (map child ps)), pe'))))"

text \<open>
  An example: actions are numbers; action \<open>n\<close> needs the role's placeholder \<open>n\<close> to hold a
  value and binds placeholder \<open>n + 1\<close> to that value plus one.
\<close>

definition step_action :: "(nat, int) execute_action" where
  "step_action n rl =
     (case role_placeholders rl (int n) of
        None \<Rightarrow> (Some KeyError, rl)
      | Some ph \<Rightarrow>
          (case child ph of
             None \<Rightarrow> (Some PlaceholderNotInstantiatedError, rl)
           | Some v \<Rightarrow>
               (None,
                rl\<lparr>role_placeholders :=
                     (role_placeholders rl)(int n + 1 \<mapsto> \<lparr>ph_id = int n + 1, child = Some (v + 1)\<rparr>)\<rparr>)))"

definition example_role :: "(nat, int) role" where
  "example_role =
     \<lparr>actions = [0, 5, 1],
      role_placeholders =
        [0 \<mapsto> \<lparr>ph_id = 0, child = Some 10\<rparr>, 5 \<mapsto> \<lparr>ph_id = 5, child = None\<rparr>],
      output_placeholder_ids = [0, 5]\<rparr>"

text \<open>
  A role whose only action binds its output placeholder: action 0 reads placeholder 0 and
  binds placeholder 1.
\<close>

definition binding_role :: "(nat, int) role" where
  "binding_role =
     \<lparr>actions = [0],
      role_placeholders =
        [0 \<mapsto> \<lparr>ph_id = 0, child = Some 10\<rparr>, 1 \<mapsto> \<lparr>ph_id = 1, child = None\<rparr>],
      output_placeholder_ids = [1]\<rparr>"

section \<open>Promises: \<open>Promise\<close>\<close>

text \<open>
  The worker's \<open>_objects\<close> holds three kinds of object, each with an \<open>id\<close> and a
  \<open>type()\<close>: plain data, a wrapper whose \<open>child\<close> is a Promise, and a Plan. Promises
  are mutable and shared (the promise being kept is also reached through the store), so
  they live in a heap and a wrapper holds the address of its child.
\<close>

type_synonym addr = nat

record plan =
  arg_ids :: "oid list"
  promised_args :: "(nat \<times> oid) list"
  promise_out_id :: oid

datatype content = Data int | Child addr | Plan plan

datatype obj = Obj (id_obj: oid) (type_obj: string) (content_obj: content)

text \<open>
  There is one worker. The \<open>owner\<close> of a promise is that worker or \<open>None\<close>, the
  default of the constructor.
\<close>

datatype worker = Local_Worker

text \<open>
  The attributes of a \<open>Promise\<close> instance. \<open>obj_id_attr\<close> is the instance attribute
  \<open>obj_id\<close>: \<open>None\<close> while the instance has no such attribute. \<open>plans\<close> is the set
  of plan ids in its iteration order.
\<close>

record promise =
  owner :: "worker option"
  id_promise :: oid
  queue_obj_ids :: "oid list"
  obj_type :: "string option"
  plans :: "oid list"
  obj_id_attr :: "oid option"

record state =
  objects :: "oid \<rightharpoonup> obj"
  heap :: "addr \<Rightarrow> promise"

text \<open>
  External collaborators of \<open>keep\<close>: calling a plan on its arguments, and
  \<open>plan.has_args_fulfilled()\<close>. The \<open>Plan\<close> class is not among the sources.
\<close>

record collaborators =
  plan_call :: "plan \<Rightarrow> obj list \<Rightarrow> exn + obj"
  has_args_fulfilled :: "state \<Rightarrow> plan \<Rightarrow> bool"

text \<open>
  \<open>__init__\<close>. The arguments are \<open>owner\<close>, \<open>id\<close>, \<open>obj_id\<close>, \<open>obj_type\<close> and
  \<open>plans\<close>, with \<open>None\<close> for an omitted one; \<open>fresh\<close> is what
  \<open>sy.ID_PROVIDER.pop()\<close> returns. The body never assigns \<open>self.obj_id\<close>.
\<close>

definition Promise_init ::
  "worker option \<Rightarrow> oid option \<Rightarrow> oid option \<Rightarrow> string option \<Rightarrow> oid list option \<Rightarrow> oid
     \<Rightarrow> promise" where
  "Promise_init own i oi ty ps fresh =
     \<lparr>owner = own,
      id_promise = (case i of None \<Rightarrow> fresh | Some j \<Rightarrow> j),
      queue_obj_ids = [],
      obj_type = ty,
      plans = (case ps of None \<Rightarrow> [] | Some l \<Rightarrow> l),
      obj_id_attr = None\<rparr>"

definition register_obj :: "state \<Rightarrow> obj \<Rightarrow> state" where
  \<comment> \<open>Modelled from the spec: the worker class is not among the sources;
      \<open>put(id, obj)\<close> stores the object under its id and overwrites.\<close>
  "register_obj s ob = s\<lparr>objects := (objects s)(id_obj ob \<mapsto> ob)\<rparr>"

definition rm_obj :: "state \<Rightarrow> oid \<Rightarrow> state" where
  \<comment> \<open>Modelled from the spec: the worker class is not among the sources;
      \<open>remove(id)\<close> deletes, and is a no-op if the id is absent.\<close>
  "rm_obj s i = s\<lparr>objects := (objects s)(i := None)\<rparr>"

text \<open>\<open>self.owner._objects[promise_id].child\<close>, as far as a queue can be read from it.\<close>

definition promise_at :: "state \<Rightarrow> oid \<Rightarrow> exn + addr" where
  "promise_at s promise_id =
     (case objects s promise_id of
        None \<Rightarrow> Inl KeyError
      | Some ob \<Rightarrow>
          (case content_obj ob of
             Child a \<Rightarrow> Inr a
           | Data d \<Rightarrow> Inl AttributeError
           | Plan pl \<Rightarrow> Inl AttributeError))"

definition is_kept :: "promise \<Rightarrow> bool" where
  "is_kept p = (queue_obj_ids p \<noteq> [])"

definition has_args_fulfilled_kept :: "state \<Rightarrow> plan \<Rightarrow> bool" where
  \<comment> \<open>Modelled from the spec: the Plan class is not among the sources;
      \<open>has_args_fulfilled()\<close> holds iff every position in \<open>promised_args\<close> has its
      referenced Promise currently kept.\<close>
  "has_args_fulfilled_kept s pl =
     list_all (\<lambda>(i, promise_id).
        case promise_at s promise_id of
          Inl e \<Rightarrow> False
        | Inr a \<Rightarrow> is_kept (heap s a)) (promised_args pl)"

text \<open>One round of the loop that collects the arguments of a plan.\<close>

definition arg_value :: "state \<Rightarrow> plan \<Rightarrow> nat \<Rightarrow> oid \<Rightarrow> exn + obj" where
  "arg_value s pl i arg_id =
     (case map_of (promised_args pl) i of
        Some promise_id \<Rightarrow>
          (case promise_at s promise_id of
             Inl e \<Rightarrow> Inl e
           | Inr a \<Rightarrow>
               (case queue_obj_ids (heap s a) of
                  [] \<Rightarrow> Inl IndexError
                | x # q \<Rightarrow>
                    (case objects s x of
                       None \<Rightarrow> Inl KeyError
                     | Some v \<Rightarrow> Inr v)))
      | None \<Rightarrow>
          (case objects s arg_id of
             None \<Rightarrow> Inl KeyError
           | Some v \<Rightarrow> Inr v))"

fun collect_args :: "state \<Rightarrow> plan \<Rightarrow> nat \<Rightarrow> oid list \<Rightarrow> exn + obj list" where
  "collect_args s pl i [] = Inr []"
| "collect_args s pl i (arg_id # rest) =
     (case arg_value s pl i arg_id of
        Inl e \<Rightarrow> Inl e
      | Inr v \<Rightarrow>
          (case collect_args s pl (i + 1) rest of
             Inl e \<Rightarrow> Inl e
           | Inr vs \<Rightarrow> Inr (v # vs)))"

text \<open>
  The loop "Remove objects from queues" over \<open>plan.promised_args.values()\<close>: pop the
  front of the promise's queue, then remove that id from the store.
\<close>

fun pop_promised :: "state \<Rightarrow> oid list \<Rightarrow> exn option \<times> state" where
  "pop_promised s [] = (None, s)"
| "pop_promised s (promise_id # rest) =
     (case promise_at s promise_id of
        Inl e \<Rightarrow> (Some e, s)
      | Inr a \<Rightarrow>
          (case queue_obj_ids (heap s a) of
             [] \<Rightarrow> (Some IndexError, s)
           | to_rm # q \<Rightarrow>
               pop_promised
                 (rm_obj (s\<lparr>heap := (heap s)(a := (heap s a)\<lparr>queue_obj_ids := q\<rparr>)\<rparr>) to_rm)
                 rest))"

text \<open>
  One firing of a plan inside \<open>keep\<close>: collect the arguments, call the plan, pop the
  queues. The state is returned also when an exception escapes.
\<close>

definition fire_plan :: "collaborators \<Rightarrow> state \<Rightarrow> plan \<Rightarrow> (exn + obj) \<times> state" where
  "fire_plan ext s pl =
     (case collect_args s pl 0 (arg_ids pl) of
        Inl e \<Rightarrow> (Inl e, s)
      | Inr as \<Rightarrow>
          (case plan_call ext pl as of
             Inl e \<Rightarrow> (Inl e, s)
           | Inr result \<Rightarrow>
               (case pop_promised s (map snd (promised_args pl)) of
                  (Some e, s') \<Rightarrow> (Inl e, s')
                | (None, s') \<Rightarrow> (Inr result, s'))))"

text \<open>The part of \<open>keep\<close> between the type check and the loop over the plans.\<close>

definition enqueue :: "state \<Rightarrow> addr \<Rightarrow> obj \<Rightarrow> state" where
  "enqueue s a ob =
     (let s1 = (if id_promise (heap s a) \<in> dom (objects s) then register_obj s ob else s)
      in s1\<lparr>heap := (heap s1)(a := (heap s1 a)
              \<lparr>queue_obj_ids := queue_obj_ids (heap s1 a) @ [id_obj ob]\<rparr>)\<rparr>)"

text \<open>
  \<open>keep\<close> and its loop over \<open>self.plans\<close>. A firing keeps the plan's output promise
  with the result, which may fire further plans without end, so the recursion carries
  fuel: each nested \<open>keep\<close> uses one unit, and \<open>None\<close> means the fuel ran out (where
  the cascade has no end, Python stops it with a \<open>RecursionError\<close> at its recursion
  limit, which the model does not have). The
  object stored under \<open>promise_out_id\<close> is a wrapper, whose \<open>keep\<close> is that of its
  child. The \<open>print\<close> at the top of \<open>keep\<close> is left out.
\<close>

fun keep :: "nat \<Rightarrow> collaborators \<Rightarrow> state \<Rightarrow> addr \<Rightarrow> obj \<Rightarrow> ((exn + obj) \<times> state) option"
  and keep_plans ::
    "nat \<Rightarrow> collaborators \<Rightarrow> state \<Rightarrow> oid list \<Rightarrow> obj \<Rightarrow> ((exn + obj) \<times> state) option" where
  "keep fuel ext s a ob =
     (if Some (type_obj ob) \<noteq> obj_type (heap s a) then Some (Inl TypeError, s)
      else (case owner (heap s a) of
              None \<Rightarrow> Some (Inl AttributeError, s)
            | Some w \<Rightarrow> keep_plans fuel ext (enqueue s a ob) (plans (heap s a)) ob))"
| "keep_plans fuel ext s [] ob = Some (Inr ob, s)"
| "keep_plans fuel ext s (plan_id # rest) ob =
     (case objects s plan_id of
        None \<Rightarrow> Some (Inl KeyError, s)
      | Some po \<Rightarrow>
          (case content_obj po of
             Data d \<Rightarrow> Some (Inl AttributeError, s)
           | Child c \<Rightarrow> Some (Inl AttributeError, s)
           | Plan pl \<Rightarrow>
               (if has_args_fulfilled ext s pl then
                  (case fire_plan ext s pl of
                     (Inl e, s1) \<Rightarrow> Some (Inl e, s1)
                   | (Inr result, s1) \<Rightarrow>
                       (case promise_at s1 (promise_out_id pl) of
                          Inl e \<Rightarrow> Some (Inl e, s1)
                        | Inr out \<Rightarrow>
                            (case fuel of
                               0 \<Rightarrow> None
                             | Suc fuel' \<Rightarrow>
                                 (case keep fuel' ext s1 out result of
                                    None \<Rightarrow> None
                                  | Some (Inl e, s2) \<Rightarrow> Some (Inl e, s2)
                                  | Some (Inr r, s2) \<Rightarrow> keep_plans fuel ext s2 rest ob))))
                else keep_plans fuel ext s rest ob)))"

text \<open>\<open>value\<close>: the next object in the queue of results, or \<open>None\<close>.\<close>

definition value_promise :: "state \<Rightarrow> addr \<Rightarrow> (exn + obj option) \<times> state" where
  "value_promise s a =
     (case queue_obj_ids (heap s a) of
        [] \<Rightarrow> (Inr None, s)
      | ret_id # q \<Rightarrow>
          (let s1 = s\<lparr>heap := (heap s)(a := (heap s a)\<lparr>queue_obj_ids := q\<rparr>)\<rparr>
           in case owner (heap s a) of
                None \<Rightarrow> (Inl AttributeError, s1)
              | Some w \<Rightarrow>
                  (case objects s1 ret_id of
                     None \<Rightarrow> (Inl KeyError, s1)
                   | Some ret \<Rightarrow> (Inr (Some ret), rm_obj s1 ret_id))))"

text \<open>Decimal rendering of integers, as an f-string does it.\<close>

function str_nat :: "nat \<Rightarrow> string" where
  "str_nat n =
     (if n < 10 then [''0123456789'' ! n]
      else str_nat (n div 10) @ [''0123456789'' ! (n mod 10)])"
  by pat_completeness auto
termination
  by (relation "measure id") auto

declare str_nat.simps [simp del]

definition str_int :: "int \<Rightarrow> string" where
  "str_int i = (if i < 0 then ''-'' @ str_nat (nat (- i)) else str_nat (nat i))"

text \<open>Reading the attribute \<open>obj_id\<close> of an instance.\<close>

definition get_obj_id :: "promise \<Rightarrow> exn + oid" where
  "get_obj_id p = (case obj_id_attr p of None \<Rightarrow> Inl AttributeError | Some oi \<Rightarrow> Inr oi)"

text \<open>
  \<open>__str__\<close> and \<open>__repr__\<close>. The f-string reads \<open>self.id\<close>, then \<open>self.obj_id\<close>,
  then \<open>len(self.plans)\<close>.
\<close>

definition str_promise :: "promise \<Rightarrow> exn + string" where
  "str_promise p =
     (case get_obj_id p of
        Inl e \<Rightarrow> Inl e
      | Inr oi \<Rightarrow>
          Inr (''<Promise('' @ str_int (id_promise p) @ '') promises Obj(id:'' @ str_int oi
               @ '') blocking '' @ str_nat (length (plans p)) @ '' plans>''))"

definition repr_promise :: "promise \<Rightarrow> exn + string" where
  "repr_promise p = str_promise p"

text \<open>
  Values on the wire. \<open>simplify\<close> builds the tuple
  \<open>(promise.id, promise.obj_id, sy.serde._simplify(promise.plans))\<close>; the serde functions
  are external and taken as parameters.
\<close>

datatype wire = Wire_Int int | Wire_Str string | Wire_None | Wire_Seq "wire list"

definition simplify :: "(oid list \<Rightarrow> wire) \<Rightarrow> promise \<Rightarrow> exn + wire list" where
  "simplify serde_simplify p =
     (case get_obj_id p of
        Inl e \<Rightarrow> Inl e
      | Inr oi \<Rightarrow> Inr [Wire_Int (id_promise p), Wire_Int oi, serde_simplify (plans p)])"

text \<open>Indexing a tuple with a constant index that is not negative.\<close>

definition tuple_get :: "'a list \<Rightarrow> nat \<Rightarrow> exn + 'a" where
  "tuple_get t i = (if i < length t then Inr (t ! i) else Inl IndexError)"

text \<open>
  \<open>detail\<close> ends in the call
  \<open>Promise(promise_tuple[0], promise_tuple[1], set(sy.serde._detail(promise_tuple[3])))\<close>,
  whose three positional arguments are the parameters \<open>owner\<close>, \<open>id\<close> and \<open>obj_id\<close> of
  the constructor. The values are whatever the tuple holds, so the call is recorded with
  its arguments as they are.
\<close>

record promise_call =
  owner_arg :: wire
  id_arg :: wire
  obj_id_arg :: "wire list"

definition detail ::
  "(wire \<Rightarrow> exn + wire list) \<Rightarrow> worker \<Rightarrow> wire list \<Rightarrow> exn + promise_call" where
  "detail serde_detail w promise_tuple =
     (case tuple_get promise_tuple 0 of
        Inl e \<Rightarrow> Inl e
      | Inr t0 \<Rightarrow>
          (case tuple_get promise_tuple 1 of
             Inl e \<Rightarrow> Inl e
           | Inr t1 \<Rightarrow>
               (case tuple_get promise_tuple 3 of
                  Inl e \<Rightarrow> Inl e
                | Inr t3 \<Rightarrow>
                    (case serde_detail t3 of
                       Inl e \<Rightarrow> Inl e
                     | Inr l \<Rightarrow> Inr \<lparr>owner_arg = t0, id_arg = t1, obj_id_arg = remdups l\<rparr>))))"

text \<open>Example inputs.\<close>

definition example_ext :: collaborators where
  "example_ext =
     \<lparr>plan_call = (\<lambda>pl as. Inr (Obj 50 ''T'' (Data (int (length as))))),
      has_args_fulfilled = has_args_fulfilled_kept\<rparr>"

definition ob5 :: obj where
  "ob5 = Obj 5 ''T'' (Data 42)"

definition example_promise :: promise where
  "example_promise = Promise_init (Some Local_Worker) (Some 1) (Some 5) (Some ''T'') None 0"

text \<open>A promise that is not registered in its owner's store.\<close>

definition unregistered_state :: state where
  "unregistered_state = \<lparr>objects = Map.empty, heap = (\<lambda>a. example_promise)\<rparr>"

text \<open>
  Promise 100 (address 0) with the waiting plan 200, whose second argument is promised by
  promise 100 and whose output goes to promise 101 (address 1).
\<close>

definition example_plan :: plan where
  "example_plan = \<lparr>arg_ids = [7, 0], promised_args = [(1, 100)], promise_out_id = 101\<rparr>"

definition cascade_state :: state where
  "cascade_state =
     \<lparr>objects =
        [100 \<mapsto> Obj 100 ''P'' (Child 0), 101 \<mapsto> Obj 101 ''P'' (Child 1),
         200 \<mapsto> Obj 200 ''Plan'' (Plan example_plan), 7 \<mapsto> Obj 7 ''T'' (Data 1)],
      heap =
        (\<lambda>a. if a = 0
              then Promise_init (Some Local_Worker) (Some 100) None (Some ''T'') (Some [200]) 0
              else Promise_init (Some Local_Worker) (Some 101) None (Some ''T'') None 0)\<rparr>"

definition example_serde_simplify :: "oid list \<Rightarrow> wire" where
  "example_serde_simplify l = Wire_Seq (map Wire_Int l)"

definition example_serde_detail :: "wire \<Rightarrow> exn + wire list" where
  "example_serde_detail x = (case x of Wire_Seq l \<Rightarrow> Inr l | _ \<Rightarrow> Inl TypeError)"

text \<open>
  The waiting plans of \<open>ps\<close> that the loop of \<open>keep\<close> passes over: each id names a
  plan in the store, and the plan does not have its arguments fulfilled.
\<close>

definition none_ready :: "collaborators \<Rightarrow> state \<Rightarrow> oid list \<Rightarrow> bool" where
  "none_ready ext s ps =
     list_all (\<lambda>plan_id.
        case objects s plan_id of
          None \<Rightarrow> False
        | Some po \<Rightarrow>
            (case content_obj po of
               Plan pl \<Rightarrow> \<not> has_args_fulfilled ext s pl
             | Data d \<Rightarrow> False
             | Child c \<Rightarrow> False)) ps"


text \<open>Further example inputs.\<close>

definition ob6 :: obj where
  "ob6 = Obj 6 ''T'' (Data 6)"


text \<open>A promise built without an owner, as by \<open>Promise(id=1, obj_type=...)\<close>.\<close>

definition ownerless_state :: state where
  "ownerless_state =
     \<lparr>objects = Map.empty, heap = (\<lambda>a. Promise_init None (Some 1) None (Some ''T'') None 0)\<rparr>"

text \<open>
  Promises 100 (address 0) and 101 (address 1), both registered, and plan 200 waiting on
  both of them.
\<close>

definition waiting_plan :: plan where
  "waiting_plan = \<lparr>arg_ids = [0, 0], promised_args = [(0, 100), (1, 101)], promise_out_id = 102\<rparr>"

definition waiting_state :: state where
  "waiting_state =
     \<lparr>objects =
        [100 \<mapsto> Obj 100 ''P'' (Child 0), 101 \<mapsto> Obj 101 ''P'' (Child 1),
         200 \<mapsto> Obj 200 ''Plan'' (Plan waiting_plan)],
      heap =
        (\<lambda>a. if a = 0
              then Promise_init (Some Local_Worker) (Some 100) None (Some ''T'') (Some [200]) 0
              else Promise_init (Some Local_Worker) (Some 101) None (Some ''T'') (Some [200]) 0)\<rparr>"

text \<open>
  The same two promises, promise 101 already kept with object 6, and plan 200 taking two
  arguments from promise 100 and one from promise 101.
\<close>

definition double_plan :: plan where
  "double_plan =
     \<lparr>arg_ids = [0, 0, 0], promised_args = [(0, 100), (1, 100), (2, 101)],
      promise_out_id = 101\<rparr>"

definition double_state :: state where
  "double_state =
     \<lparr>objects =
        [100 \<mapsto> Obj 100 ''P'' (Child 0), 101 \<mapsto> Obj 101 ''P'' (Child 1),
         200 \<mapsto> Obj 200 ''Plan'' (Plan double_plan), 6 \<mapsto> ob6],
      heap =
        (\<lambda>a. if a = 0
              then Promise_init (Some Local_Worker) (Some 100) None (Some ''T'') (Some [200]) 0
              else (Promise_init (Some Local_Worker) (Some 101) None (Some ''T'') None 0)
                     \<lparr>queue_obj_ids := [6]\<rparr>)\<rparr>"

section \<open>Properties of the remote invocation service\<close>

lemma resolve_dangling: "dangling st x \<Longrightarrow> resolve st x = Inl NotFound"
  by (cases x) (simp_all add: dangling_def resolve_def get_object_def)

lemma resolve_not_dangling:
  "\<not> dangling st x \<Longrightarrow>
   resolve st x = Inr (case x of Pointer loc i \<Rightarrow> the (st i) | Local v \<Rightarrow> x)"
  by (cases x) (auto simp: dangling_def resolve_def get_object_def)

lemma resolve_error: "resolve st x = Inl e \<Longrightarrow> e = NotFound \<and> dangling st x"
  by (cases x) (auto simp: dangling_def resolve_def get_object_def split: option.splits)

lemma resolve_args_dangling:
  "\<exists>x \<in> set xs. dangling st x \<Longrightarrow> resolve_args st xs acc = Inl NotFound"
proof (induction xs arbitrary: acc)
  case Nil
  then show ?case by simp
next
  case (Cons x xs)
  show ?case
  proof (cases "dangling st x")
    case True
    then show ?thesis by (simp add: resolve_dangling)
  next
    case False
    with Cons.prems have "\<exists>y \<in> set xs. dangling st y" by simp
    from Cons.IH [OF this] False show ?thesis
      by (simp add: resolve_not_dangling)
  qed
qed

lemma resolve_args_ok:
  "\<forall>x \<in> set xs. \<not> dangling st x \<Longrightarrow>
   resolve_args st xs acc =
     Inr (acc @ map (\<lambda>x. case x of Pointer loc i \<Rightarrow> the (st i) | Local v \<Rightarrow> x) xs)"
  by (induction xs arbitrary: acc) (simp_all add: resolve_not_dangling)

text \<open>
  The receiver and the positional arguments do follow the uniform rule: a pointer is
  replaced by the store's entry under its \<open>id_at_location\<close>, anything else is passed
  through, and no keyword argument reaches the method.
\<close>

lemma call_arguments_ok:
  assumes "\<forall>x \<in> set (msg_self msg # args msg). \<not> dangling (store nd) x"
  shows "call_arguments nd msg =
           Inr (case msg_self msg of Pointer loc i \<Rightarrow> the (store nd i) | Local v \<Rightarrow> msg_self msg,
                map (\<lambda>x. case x of Pointer loc i \<Rightarrow> the (store nd i) | Local v \<Rightarrow> x) (args msg),
                [])"
  using assms by (simp add: call_arguments_def resolve_not_dangling resolve_args_ok)

lemma call_arguments_dangling:
  assumes "\<exists>x \<in> set (msg_self msg # args msg). dangling (store nd) x"
  shows "call_arguments nd msg = Inl NotFound"
proof (cases "dangling (store nd) (msg_self msg)")
  case True
  then show ?thesis by (simp add: call_arguments_def resolve_dangling)
next
  case False
  with assms have "\<exists>x \<in> set (args msg). dangling (store nd) x" by simp
  from resolve_args_dangling [OF this] False show ?thesis
    by (simp add: call_arguments_def resolve_not_dangling)
qed

text \<open>
  C1. The claim says that the receiver and every positional and keyword argument is
  resolved by the uniform rule before the method is called. The code never reads
  \<open>msg.kwargs\<close>: for a message whose only keyword argument is a pointer to the stored
  object 42, the method is called with no keyword argument at all, and the stored result
  (the echo method counts its arguments) shows it.
\<close>

theorem process_drops_kwargs:
  "kwargs kwargs_message = [(''k'', Pointer ''A'' 7)]
   \<and> call_arguments example_node kwargs_message = Inr (Local 1, [], [])
   \<and> fst (process example_node kwargs_message) = Inr ()
   \<and> store (snd (process example_node kwargs_message)) 9 = Some (Local 0)"
  by (simp add: kwargs_message_def example_node_def call_arguments_def process_def
      resolve_def echo_method_def store_object_def)

text \<open>
  For the receiver and the positional arguments the service does what is expected of it:
  if one of them is a pointer whose id is absent from the store, the invocation fails
  with \<open>NotFound\<close> and the node, hence its store, is as before; if every such pointer
  resolves, the dispatch finds the callable and the call returns a value, that value is
  stored under the result id, replacing whatever was there, and every other entry is
  kept.
\<close>

lemma process_receiver_positional:
  "((\<exists>x \<in> set (msg_self msg # args msg). dangling (store nd) x) \<longrightarrow>
      process nd msg = (Inl NotFound, nd))
   \<and> ((\<forall>x \<in> set (msg_self msg # args msg). \<not> dangling (store nd) x) \<longrightarrow>
        (\<exists>a. call_arguments nd msg = Inr a) \<and>
        (\<forall>slf as kw m r.
           call_arguments nd msg = Inr (slf, as, kw) \<and> frameworks nd (path msg) = Inr m
             \<and> m slf as kw = Inr r \<longrightarrow>
           process nd msg = (Inr (), nd\<lparr>store := (store nd)(id_at_location msg \<mapsto> r)\<rparr>)))"
proof (intro conjI impI)
  assume "\<exists>x \<in> set (msg_self msg # args msg). dangling (store nd) x"
  then have "call_arguments nd msg = Inl NotFound" by (rule call_arguments_dangling)
  then show "process nd msg = (Inl NotFound, nd)" by (simp add: process_def)
next
  assume "\<forall>x \<in> set (msg_self msg # args msg). \<not> dangling (store nd) x"
  then show "\<exists>a. call_arguments nd msg = Inr a" by (simp add: call_arguments_ok)
next
  show "\<forall>slf as kw m r.
           call_arguments nd msg = Inr (slf, as, kw) \<and> frameworks nd (path msg) = Inr m
             \<and> m slf as kw = Inr r \<longrightarrow>
           process nd msg = (Inr (), nd\<lparr>store := (store nd)(id_at_location msg \<mapsto> r)\<rparr>)"
    by (simp add: process_def store_object_def)
qed

text \<open>
  C5. The claim says that an invocation in which resolving the receiver or any argument
  fails with \<open>NotFound\<close> fails and stores nothing. For a keyword argument that is a
  pointer whose id is absent from the store, the code, which never reads \<open>msg.kwargs\<close>,
  raises nothing: it calls the callable without keyword arguments and stores the result
  under the result id.
\<close>

theorem process_dangling_kwarg_stored:
  "kwargs dangling_kwarg_message = [(''k'', Pointer ''A'' 8)]
   \<and> dangling (store example_node) (Pointer ''A'' 8)
   \<and> resolve (store example_node) (Pointer ''A'' 8) = Inl NotFound
   \<and> store example_node 9 = None
   \<and> fst (process example_node dangling_kwarg_message) = Inr ()
   \<and> store (snd (process example_node dangling_kwarg_message)) 9 = Some (Local 0)"
  by (simp add: dangling_kwarg_message_def example_node_def call_arguments_def process_def
      resolve_def get_object_def dangling_def echo_method_def store_object_def)

section \<open>Properties of protocol execution\<close>

lemma init_placeholders_dom:
  "dom (placeholders (ProtocolExecution_init rl ra)) = dom (role_placeholders rl)"
  by (auto simp: ProtocolExecution_init_def split: option.splits)

lemma init_placeholders_cleared:
  "placeholders (ProtocolExecution_init rl ra) i = Some ph \<Longrightarrow> child ph = None"
  by (auto simp: ProtocolExecution_init_def split: option.splits)

lemma run_actions_append:
  "run_actions ea (xs @ ys) pe =
     (case run_actions ea xs pe of
        (Exhausted, pe1) \<Rightarrow> run_actions ea ys pe1
      | other \<Rightarrow> other)"
  by (induction xs arbitrary: pe) (auto split: prod.splits option.splits)

lemma run_actions_cursor:
  "run_actions ea xs pe = (Exhausted, pe1) \<Longrightarrow>
   next_action_index pe1 = next_action_index pe + length xs"
proof (induction xs arbitrary: pe)
  case Nil
  then show ?case by simp
next
  case (Cons x xs)
  then show ?case
    by (fastforce split: prod.splits option.splits if_splits)
qed

lemma run_actions_cursor_mono:
  "run_actions ea xs pe = (ex, pe1) \<Longrightarrow> next_action_index pe \<le> next_action_index pe1"
proof (induction xs arbitrary: pe)
  case Nil
  then show ?case by simp
next
  case (Cons x xs)
  then show ?case
    by (fastforce split: prod.splits option.splits if_splits)
qed

lemma run_actions_placeholders:
  "run_actions ea xs pe = (ex, pe1) \<Longrightarrow> placeholders pe1 = placeholders pe"
proof (induction xs arbitrary: pe)
  case Nil
  then show ?case by simp
next
  case (Cons x xs)
  then show ?case
    by (fastforce split: prod.splits option.splits if_splits)
qed

lemma execute_placeholders:
  "placeholders (snd (execute ea pe)) = placeholders pe"
proof -
  obtain ex pe1 where r: "run_actions ea (drop (next_action_index pe) (actions (role pe))) pe = (ex, pe1)"
    by (cases "run_actions ea (drop (next_action_index pe) (actions (role pe))) pe")
  from run_actions_placeholders [OF r] r show ?thesis
    by (cases ex) (simp_all add: execute_def split: sum.splits)
qed

lemma output_placeholders_ok:
  "set outs \<subseteq> dom phs \<Longrightarrow> output_placeholders phs outs = Inr (map (\<lambda>i. the (phs i)) outs)"
  by (induction outs) auto

text \<open>
  C6. Let the actions from the cursor on be \<open>done @ action # rest\<close>, let the actions of
  \<open>done\<close> run through, and let \<open>_execute_action\<close> raise
  \<open>PlaceholderNotInstantiatedError\<close> on \<open>action\<close>. Then \<open>execute\<close> returns
  \<open>(False, None)\<close> and raises nothing, none of \<open>rest\<close> is run (the execution is left
  as the failed call left it), and the cursor has advanced by the length of \<open>done\<close>
  only: it still designates \<open>action\<close>.
\<close>

theorem execute_blocks_at_unready_action:
  assumes "drop (next_action_index pe) (actions (role pe)) = done @ action # rest"
    and "run_actions ea done pe = (Exhausted, pe1)"
    and "fst (ea action (role pe1)) = Some PlaceholderNotInstantiatedError"
  shows "execute ea pe = (Inr (False, None), pe1\<lparr>role := snd (ea action (role pe1))\<rparr>)
         \<and> next_action_index (snd (execute ea pe)) = next_action_index pe + length done
         \<and> actions (role pe) ! next_action_index (snd (execute ea pe)) = action"
proof -
  from assms(3) have "run_actions ea (action # rest) pe1 =
      (Returned_False, pe1\<lparr>role := snd (ea action (role pe1))\<rparr>)"
    by (cases "ea action (role pe1)") auto
  with assms(2) have "run_actions ea (done @ action # rest) pe =
      (Returned_False, pe1\<lparr>role := snd (ea action (role pe1))\<rparr>)"
    by (simp add: run_actions_append)
  with assms(1) have e: "execute ea pe = (Inr (False, None), pe1\<lparr>role := snd (ea action (role pe1))\<rparr>)"
    by (simp add: execute_def)
  from run_actions_cursor [OF assms(2)]
  have c: "next_action_index (snd (execute ea pe)) = next_action_index pe + length done"
    by (simp add: e)
  have n: "(drop (next_action_index pe) (actions (role pe))) ! length done = action"
    by (simp add: assms(1))
  have "length (drop (next_action_index pe) (actions (role pe))) = length done + 1 + length rest"
    by (simp add: assms(1))
  then have "next_action_index pe + length done < length (actions (role pe))"
    by simp
  with n have "actions (role pe) ! (next_action_index pe + length done) = action"
    by simp
  with e c show ?thesis by simp
qed

theorem execute_blocks_at_unready_action_witness:
  "drop (next_action_index (ProtocolExecution_init example_role []))
        (actions (role (ProtocolExecution_init example_role []))) = [0] @ 5 # [1]
   \<and> fst (run_actions step_action [0] (ProtocolExecution_init example_role [])) = Exhausted
   \<and> fst (execute step_action (ProtocolExecution_init example_role [])) = Inr (False, None)
   \<and> next_action_index (snd (execute step_action (ProtocolExecution_init example_role []))) = 1
   \<and> actions (role (ProtocolExecution_init example_role []))
        ! next_action_index (snd (execute step_action (ProtocolExecution_init example_role []))) = 5"
proof -
  let ?pe = "ProtocolExecution_init example_role []"
  let ?rl = "example_role\<lparr>role_placeholders :=
                (role_placeholders example_role)(1 \<mapsto> \<lparr>ph_id = 1, child = Some 11\<rparr>)\<rparr>"
  let ?pe1 = "?pe\<lparr>role := ?rl, next_action_index := 1\<rparr>"
  have s0: "step_action 0 example_role = (None, ?rl)"
    by (simp add: step_action_def example_role_def)
  have r: "run_actions step_action [0] ?pe = (Exhausted, ?pe1)"
    by (simp add: s0) (simp add: ProtocolExecution_init_def s0)
  have d: "drop (next_action_index ?pe) (actions (role ?pe)) = [0] @ 5 # [1]"
    by (simp add: ProtocolExecution_init_def example_role_def)
  have b: "fst (step_action 5 (role ?pe1)) = Some PlaceholderNotInstantiatedError"
    by (simp add: step_action_def example_role_def)
  have n: "next_action_index ?pe = 0"
    by (simp add: ProtocolExecution_init_def)
  have a: "actions (role ?pe) ! 1 = 5"
    by (simp add: ProtocolExecution_init_def example_role_def)
  from execute_blocks_at_unready_action [OF d r b] n have
    "fst (execute step_action ?pe) = Inr (False, None)
     \<and> next_action_index (snd (execute step_action ?pe)) = 1"
    by simp
  with d r n a show ?thesis
    by simp
qed

text \<open>
  With the cursor at the end of the action list, \<open>execute\<close> runs no action (the result
  is the same whatever \<open>_execute_action\<close> would do) and changes nothing, so that a
  second call returns what the first did. If every output id names a placeholder of the
  execution, the result is \<open>(True, None)\<close> for no output id and otherwise \<open>True\<close>
  with the tuple of the children of the execution's own placeholders.
\<close>

lemma execute_at_end:
  assumes "next_action_index pe = length (actions (role pe))"
    and "set (output_placeholder_ids (role pe)) \<subseteq> dom (placeholders pe)"
  shows "execute ea pe =
           (Inr (True,
                 if output_placeholder_ids (role pe) = [] then None
                 else Some (map (\<lambda>i. child (the (placeholders pe i)))
                              (output_placeholder_ids (role pe)))),
            pe)
         \<and> execute ea' pe = execute ea pe
         \<and> execute ea (snd (execute ea pe)) = execute ea pe"
proof -
  have "\<And>f. execute f pe =
           (Inr (True,
                 if output_placeholder_ids (role pe) = [] then None
                 else Some (map (\<lambda>i. child (the (placeholders pe i)))
                              (output_placeholder_ids (role pe)))),
            pe)"
    using assms by (simp add: execute_def output_placeholders_ok comp_def)
  then show ?thesis by simp
qed

text \<open>
  The placeholders that \<open>execute\<close> reads the outputs from are the copies made by the
  constructor. \<open>execute\<close> hands every action to \<open>self.role._execute_action\<close>, which
  works on the role, and never touches the copies: if no copy holds a value, as after
  the constructor, every component of the returned tuple is \<open>None\<close>, whatever the
  actions do.
\<close>

lemma output_placeholders_children:
  "output_placeholders phs outs = Inr ps \<Longrightarrow> \<forall>i ph. phs i = Some ph \<longrightarrow> child ph = None \<Longrightarrow>
   set (map child ps) \<subseteq> {None}"
proof (induction outs arbitrary: ps)
  case Nil
  then show ?case by simp
next
  case (Cons output_id rest)
  then show ?case
    by (fastforce split: option.splits sum.splits)
qed

lemma execute_outputs_all_None:
  assumes "\<forall>i ph. placeholders pe i = Some ph \<longrightarrow> child ph = None"
    and "fst (execute ea pe) = Inr (b, Some t)"
  shows "set t \<subseteq> {None}"
proof -
  obtain ex pe1 where r: "run_actions ea (drop (next_action_index pe) (actions (role pe))) pe = (ex, pe1)"
    by (cases "run_actions ea (drop (next_action_index pe) (actions (role pe))) pe")
  from run_actions_placeholders [OF r] have p: "placeholders pe1 = placeholders pe" .
  from assms(2) r obtain ps where
    o: "output_placeholders (placeholders pe1) (output_placeholder_ids (role pe1)) = Inr ps"
    and t: "t = map child ps"
    by (cases ex) (auto simp: execute_def split: if_splits sum.splits)
  from output_placeholders_children [OF o] assms(1) p t show ?thesis by simp
qed

text \<open>
  C7. The claim says that a completed execution returns \<open>True\<close> with the tuple of the
  bound values of the output placeholders. Here the only action binds the output
  placeholder 1 to 11. The first call of \<open>execute\<close> runs it and brings the cursor to the
  end of the list; the role's placeholder 1 then holds 11, but the tuple returned by
  this call and by the next one on the completed execution holds \<open>None\<close>.
\<close>

theorem execute_outputs_never_bound:
  "next_action_index (snd (execute step_action (ProtocolExecution_init binding_role [])))
     = length (actions (role (snd (execute step_action (ProtocolExecution_init binding_role [])))))
   \<and> role_placeholders (role (snd (execute step_action (ProtocolExecution_init binding_role [])))) 1
       = Some \<lparr>ph_id = 1, child = Some 11\<rparr>
   \<and> fst (execute step_action (ProtocolExecution_init binding_role [])) = Inr (True, Some [None])
   \<and> fst (execute step_action (snd (execute step_action (ProtocolExecution_init binding_role []))))
       = Inr (True, Some [None])"
proof -
  let ?pe = "ProtocolExecution_init binding_role []"
  let ?rl = "binding_role\<lparr>role_placeholders :=
               (role_placeholders binding_role)(1 \<mapsto> \<lparr>ph_id = 1, child = Some 11\<rparr>)\<rparr>"
  let ?pe1 = "?pe\<lparr>role := ?rl, next_action_index := 1\<rparr>"
  have s0: "step_action 0 binding_role = (None, ?rl)"
    by (simp add: step_action_def binding_role_def)
  have r: "run_actions step_action [0] ?pe = (Exhausted, ?pe1)"
    by (simp add: s0) (simp add: ProtocolExecution_init_def s0)
  have d: "drop (next_action_index ?pe) (actions (role ?pe)) = [0]"
    by (simp add: ProtocolExecution_init_def binding_role_def)
  have e: "execute step_action ?pe = (Inr (True, Some [None]), ?pe1)"
    unfolding execute_def d r
    by (simp add: ProtocolExecution_init_def binding_role_def)
  have e1: "execute step_action ?pe1 = (Inr (True, Some [None]), ?pe1)"
    by (simp add: execute_def ProtocolExecution_init_def binding_role_def)
  have s: "snd (execute step_action ?pe) = ?pe1"
    by (simp only: e snd_conv)
  have a: "next_action_index ?pe1 = length (actions (role ?pe1))"
    by (simp add: binding_role_def)
  have b: "role_placeholders (role ?pe1) 1 = Some \<lparr>ph_id = 1, child = Some 11\<rparr>"
    by (simp add: binding_role_def)
  have c: "fst (execute step_action ?pe) = Inr (True, Some [None])"
    by (simp only: e fst_conv)
  have c1: "fst (execute step_action ?pe1) = Inr (True, Some [None])"
    by (simp only: e1 fst_conv)
  from a b c c1 show ?thesis
    unfolding s by (intro conjI)
qed

section \<open>Properties of promises\<close>

lemma keep_plans_returns_obj:
  "keep_plans fuel ext s ps ob = Some (Inr r, s') \<Longrightarrow> r = ob"
proof (induction ps arbitrary: s)
  case Nil
  then show ?case by simp
next
  case (Cons plan_id rest)
  then show ?case
    by (auto split: option.splits content.splits if_splits prod.splits sum.splits nat.splits)
qed

lemma enqueue_queue:
  "queue_obj_ids (heap (enqueue s a ob) a) = queue_obj_ids (heap s a) @ [id_obj ob]"
  by (simp add: enqueue_def register_obj_def Let_def)

lemma enqueue_objects:
  "objects (enqueue s a ob) =
     (if id_promise (heap s a) \<in> dom (objects s) then (objects s)(id_obj ob \<mapsto> ob)
      else objects s)"
  by (simp add: enqueue_def register_obj_def Let_def)

lemma enqueue_other:
  "b \<noteq> a \<Longrightarrow> heap (enqueue s a ob) b = heap s b"
  by (simp add: enqueue_def register_obj_def Let_def)

text \<open>
  C4. If the declared type of the object differs from \<open>obj_type\<close>, \<open>keep\<close> raises
  \<open>TypeError\<close>, whatever the fuel, and the state (every queue and the store) is the
  one before the call.
\<close>

theorem keep_type_mismatch:
  "Some (type_obj ob) \<noteq> obj_type (heap s a) \<Longrightarrow>
   keep fuel ext s a ob = Some (Inl TypeError, s)"
  by simp

theorem keep_type_mismatch_witness:
  "Some (type_obj (Obj 9 ''str'' (Data 0))) \<noteq> obj_type (heap cascade_state 0)
   \<and> keep 0 example_ext cascade_state 0 (Obj 9 ''str'' (Data 0)) = Some (Inl TypeError, cascade_state)"
proof -
  have h: "Some (type_obj (Obj 9 ''str'' (Data 0))) \<noteq> obj_type (heap cascade_state 0)"
    by (simp add: cascade_state_def Promise_init_def)
  from keep_type_mismatch [OF h] h show ?thesis by blast
qed

lemma keep_plans_skip:
  "none_ready ext s pre \<Longrightarrow> keep_plans fuel ext s (pre @ ps) ob = keep_plans fuel ext s ps ob"
  by (induction pre) (auto simp: none_ready_def split: option.splits content.splits)

lemma keep_plans_none_ready:
  "none_ready ext s ps \<Longrightarrow> keep_plans fuel ext s ps ob = Some (Inr ob, s)"
  using keep_plans_skip [of ext s ps fuel "[]" ob] by simp

lemma enqueue_heap:
  "heap (enqueue s a ob) =
     (heap s)(a := (heap s a)\<lparr>queue_obj_ids := queue_obj_ids (heap s a) @ [id_obj ob]\<rparr>)"
  by (simp add: enqueue_def register_obj_def Let_def)

text \<open>
  C2, as the claim states it, fails. A promise that is not registered in its owner's
  store is kept with an object of the promised type that is not in the store either:
  \<open>keep\<close> returns the object and queues its id, but the object is not registered. A
  promise built without an owner makes \<open>keep\<close> raise \<open>AttributeError\<close>. And when a
  waiting plan fires and its removal loop raises, \<open>keep\<close> raises too instead of
  returning the object.
\<close>

theorem keep_unregistered_counterexample:
  "Some (type_obj ob5) = obj_type (heap unregistered_state 0)
   \<and> objects unregistered_state (id_obj ob5) = None
   \<and> keep 0 example_ext unregistered_state 0 ob5 = Some (Inr ob5, enqueue unregistered_state 0 ob5)
   \<and> objects (enqueue unregistered_state 0 ob5) (id_obj ob5) = None
   \<and> Some (type_obj ob5) = obj_type (heap ownerless_state 0)
   \<and> keep 0 example_ext ownerless_state 0 ob5 = Some (Inl AttributeError, ownerless_state)
   \<and> Some (type_obj ob5) = obj_type (heap double_state 0)
   \<and> map_option fst (keep 1 example_ext double_state 0 ob5) = Some (Inl IndexError)"
proof -
  have u: "Some (type_obj ob5) = obj_type (heap unregistered_state 0)
      \<and> objects unregistered_state (id_obj ob5) = None
      \<and> keep 0 example_ext unregistered_state 0 ob5
          = Some (Inr ob5, enqueue unregistered_state 0 ob5)
      \<and> objects (enqueue unregistered_state 0 ob5) (id_obj ob5) = None"
    by (simp add: unregistered_state_def example_promise_def Promise_init_def ob5_def
        enqueue_objects)
  have o: "Some (type_obj ob5) = obj_type (heap ownerless_state 0)
      \<and> keep 0 example_ext ownerless_state 0 ob5 = Some (Inl AttributeError, ownerless_state)"
    by (simp add: ownerless_state_def Promise_init_def ob5_def)
  have t: "Some (type_obj ob5) = obj_type (heap double_state 0)"
    by (simp add: double_state_def Promise_init_def ob5_def)
  have d: "map_option fst (keep 1 example_ext double_state 0 ob5) = Some (Inl IndexError)"
    by (simp add: double_state_def double_plan_def Promise_init_def ob5_def ob6_def
        example_ext_def has_args_fulfilled_kept_def is_kept_def promise_at_def enqueue_def
        register_obj_def rm_obj_def fire_plan_def arg_value_def)
  from u o t d show ?thesis by blast
qed

text \<open>
  C2, amended. Let the object have the promised type. If the promise has no owner,
  \<open>keep\<close> raises \<open>AttributeError\<close> and changes nothing. Otherwise \<open>keep\<close> appends the
  id of the object to the queue of the promise and to no other queue, having registered
  the object exactly if the promise's own id is a key of the store (whether or not the
  object was there already), and runs the loop over the waiting plans on that state.
  Waiting plans that are not ready are passed over without any effect; if none of the
  waiting plans is ready, \<open>keep\<close> returns the object it was given, whatever the fuel,
  and that state is the final one; a waiting plan id that is not a key of the store
  makes \<open>keep\<close> raise \<open>KeyError\<close> in that state. In every case, if \<open>keep\<close> returns, it
  returns the object it was given.
\<close>

theorem keep_enqueues_and_returns:
  assumes "Some (type_obj ob) = obj_type (heap s a)"
  shows "(owner (heap s a) = None \<longrightarrow> keep fuel ext s a ob = Some (Inl AttributeError, s))
         \<and> (owner (heap s a) \<noteq> None \<longrightarrow>
              heap (enqueue s a ob) =
                (heap s)(a := (heap s a)\<lparr>queue_obj_ids := queue_obj_ids (heap s a) @ [id_obj ob]\<rparr>)
              \<and> objects (enqueue s a ob) =
                  (if id_promise (heap s a) \<in> dom (objects s) then (objects s)(id_obj ob \<mapsto> ob)
                   else objects s)
              \<and> (\<forall>pre ps.
                    plans (heap s a) = pre @ ps \<and> none_ready ext (enqueue s a ob) pre \<longrightarrow>
                    keep fuel ext s a ob = keep_plans fuel ext (enqueue s a ob) ps ob)
              \<and> (none_ready ext (enqueue s a ob) (plans (heap s a)) \<longrightarrow>
                    keep fuel ext s a ob = Some (Inr ob, enqueue s a ob))
              \<and> (\<forall>pre plan_id rest.
                    plans (heap s a) = pre @ plan_id # rest \<and> none_ready ext (enqueue s a ob) pre
                      \<and> objects (enqueue s a ob) plan_id = None \<longrightarrow>
                    keep fuel ext s a ob = Some (Inl KeyError, enqueue s a ob))
              \<and> (\<forall>r s'. keep fuel ext s a ob = Some (Inr r, s') \<longrightarrow> r = ob))"
proof (intro conjI impI)
  assume "owner (heap s a) = None"
  with assms show "keep fuel ext s a ob = Some (Inl AttributeError, s)" by simp
next
  assume "owner (heap s a) \<noteq> None"
  show "heap (enqueue s a ob) =
      (heap s)(a := (heap s a)\<lparr>queue_obj_ids := queue_obj_ids (heap s a) @ [id_obj ob]\<rparr>)"
    by (rule enqueue_heap)
next
  assume "owner (heap s a) \<noteq> None"
  show "objects (enqueue s a ob) =
      (if id_promise (heap s a) \<in> dom (objects s) then (objects s)(id_obj ob \<mapsto> ob)
       else objects s)"
    by (rule enqueue_objects)
next
  assume "owner (heap s a) \<noteq> None"
  with assms have k: "keep fuel ext s a ob =
      keep_plans fuel ext (enqueue s a ob) (plans (heap s a)) ob"
    by auto
  show "\<forall>pre ps.
      plans (heap s a) = pre @ ps \<and> none_ready ext (enqueue s a ob) pre \<longrightarrow>
      keep fuel ext s a ob = keep_plans fuel ext (enqueue s a ob) ps ob"
    unfolding k by (auto simp: keep_plans_skip)
next
  assume "owner (heap s a) \<noteq> None"
  with assms have k: "keep fuel ext s a ob =
      keep_plans fuel ext (enqueue s a ob) (plans (heap s a)) ob"
    by auto
  assume "none_ready ext (enqueue s a ob) (plans (heap s a))"
  then show "keep fuel ext s a ob = Some (Inr ob, enqueue s a ob)"
    unfolding k by (rule keep_plans_none_ready)
next
  assume "owner (heap s a) \<noteq> None"
  with assms have k: "keep fuel ext s a ob =
      keep_plans fuel ext (enqueue s a ob) (plans (heap s a)) ob"
    by auto
  show "\<forall>pre plan_id rest.
      plans (heap s a) = pre @ plan_id # rest \<and> none_ready ext (enqueue s a ob) pre
        \<and> objects (enqueue s a ob) plan_id = None \<longrightarrow>
      keep fuel ext s a ob = Some (Inl KeyError, enqueue s a ob)"
    unfolding k by (auto simp: keep_plans_skip)
next
  assume "owner (heap s a) \<noteq> None"
  with assms have k: "keep fuel ext s a ob =
      keep_plans fuel ext (enqueue s a ob) (plans (heap s a)) ob"
    by auto
  show "\<forall>r s'. keep fuel ext s a ob = Some (Inr r, s') \<longrightarrow> r = ob"
    unfolding k by (blast dest: keep_plans_returns_obj)
qed

theorem keep_enqueues_and_returns_witness:
  "Some (type_obj ob5) = obj_type (heap waiting_state 0)
   \<and> owner (heap waiting_state 0) \<noteq> None
   \<and> plans (heap waiting_state 0) = [200]
   \<and> none_ready example_ext (enqueue waiting_state 0 ob5) [200]
   \<and> keep 0 example_ext waiting_state 0 ob5 = Some (Inr ob5, enqueue waiting_state 0 ob5)
   \<and> queue_obj_ids (heap (enqueue waiting_state 0 ob5) 0) = [5]
   \<and> queue_obj_ids (heap (enqueue waiting_state 0 ob5) 1) = []
   \<and> objects (enqueue waiting_state 0 ob5) 5 = Some ob5
   \<and> Some (type_obj ob5) = obj_type (heap ownerless_state 0)
   \<and> owner (heap ownerless_state 0) = None
   \<and> keep 0 example_ext ownerless_state 0 ob5 = Some (Inl AttributeError, ownerless_state)"
proof -
  have t: "Some (type_obj ob5) = obj_type (heap waiting_state 0)"
    by (simp add: waiting_state_def Promise_init_def ob5_def)
  have o: "owner (heap waiting_state 0) \<noteq> None"
    by (simp add: waiting_state_def Promise_init_def)
  have p: "plans (heap waiting_state 0) = [200]"
    by (simp add: waiting_state_def Promise_init_def)
  have n: "none_ready example_ext (enqueue waiting_state 0 ob5) [200]"
    by (simp add: none_ready_def waiting_state_def waiting_plan_def Promise_init_def ob5_def
        example_ext_def has_args_fulfilled_kept_def is_kept_def promise_at_def enqueue_def
        register_obj_def)
  have d: "id_promise (heap waiting_state 0) \<in> dom (objects waiting_state)"
    by (simp add: waiting_state_def Promise_init_def)
  have q: "queue_obj_ids (heap waiting_state 0) = [] \<and> queue_obj_ids (heap waiting_state 1) = []"
    by (simp add: waiting_state_def Promise_init_def)
  have i: "id_obj ob5 = 5"
    by (simp add: ob5_def)
  have t': "Some (type_obj ob5) = obj_type (heap ownerless_state 0)"
    by (simp add: ownerless_state_def Promise_init_def ob5_def)
  have o': "owner (heap ownerless_state 0) = None"
    by (simp add: ownerless_state_def Promise_init_def)
  from keep_enqueues_and_returns [OF t, of 0 example_ext] o p n
  have h: "heap (enqueue waiting_state 0 ob5) =
        (heap waiting_state)(0 := (heap waiting_state 0)
          \<lparr>queue_obj_ids := queue_obj_ids (heap waiting_state 0) @ [id_obj ob5]\<rparr>)"
    and b: "objects (enqueue waiting_state 0 ob5) =
        (if id_promise (heap waiting_state 0) \<in> dom (objects waiting_state)
         then (objects waiting_state)(id_obj ob5 \<mapsto> ob5) else objects waiting_state)"
    and k: "keep 0 example_ext waiting_state 0 ob5 = Some (Inr ob5, enqueue waiting_state 0 ob5)"
    by simp_all
  from h q i have q0: "queue_obj_ids (heap (enqueue waiting_state 0 ob5) 0) = [5]"
    and q1: "queue_obj_ids (heap (enqueue waiting_state 0 ob5) 1) = []"
    by simp_all
  from b d i have s5: "objects (enqueue waiting_state 0 ob5) 5 = Some ob5"
    by simp
  from keep_enqueues_and_returns [OF t', of 0 example_ext] o'
  have k': "keep 0 example_ext ownerless_state 0 ob5 = Some (Inl AttributeError, ownerless_state)"
    by blast
  from t o p n k q0 q1 s5 t' o' k' show ?thesis by blast
qed

text \<open>
  C8, as the claim states it, fails: after \<open>keep\<close> on a promise that is not registered
  in its owner's store, the queue holds the id of an object that is not in the store;
  \<open>value\<close> then pops the id and raises \<open>KeyError\<close> instead of returning an object.
\<close>

theorem value_promise_missing_counterexample:
  "keep 0 example_ext unregistered_state 0 ob5 = Some (Inr ob5, enqueue unregistered_state 0 ob5)
   \<and> queue_obj_ids (heap (enqueue unregistered_state 0 ob5) 0) = [5]
   \<and> fst (value_promise (enqueue unregistered_state 0 ob5) 0) = Inl KeyError
   \<and> queue_obj_ids (heap (snd (value_promise (enqueue unregistered_state 0 ob5) 0)) 0) = []"
  by (simp add: unregistered_state_def example_promise_def Promise_init_def ob5_def
      enqueue_def value_promise_def)

text \<open>
  C8, amended. \<open>value\<close> never waits. With an empty queue it returns \<open>None\<close> and changes
  nothing. With a non-empty queue, on a promise with an owner: if the front id is a key
  of the store, it returns the object stored there, the queue has lost its front, that
  key is removed from the store and nothing else changes; if the front id is not in the
  store, it raises \<open>KeyError\<close> after having popped the id.
\<close>

theorem value_promise_poll:
  "(queue_obj_ids (heap s a) = [] \<longrightarrow> value_promise s a = (Inr None, s))
   \<and> (\<forall>x q w ob.
         queue_obj_ids (heap s a) = x # q \<and> owner (heap s a) = Some w \<and> objects s x = Some ob \<longrightarrow>
         fst (value_promise s a) = Inr (Some ob)
         \<and> queue_obj_ids (heap (snd (value_promise s a)) a) = q
         \<and> objects (snd (value_promise s a)) = (objects s)(x := None)
         \<and> (\<forall>b. b \<noteq> a \<longrightarrow> heap (snd (value_promise s a)) b = heap s b))
   \<and> (\<forall>x q w.
         queue_obj_ids (heap s a) = x # q \<and> owner (heap s a) = Some w \<and> objects s x = None \<longrightarrow>
         fst (value_promise s a) = Inl KeyError
         \<and> queue_obj_ids (heap (snd (value_promise s a)) a) = q
         \<and> objects (snd (value_promise s a)) = objects s)"
  by (simp add: value_promise_def rm_obj_def Let_def)

theorem value_promise_poll_witness:
  "queue_obj_ids (heap cascade_state 0) = []
   \<and> value_promise cascade_state 0 = (Inr None, cascade_state)
   \<and> queue_obj_ids (heap (enqueue cascade_state 0 ob5) 0) = [5]
   \<and> owner (heap (enqueue cascade_state 0 ob5) 0) = Some Local_Worker
   \<and> objects (enqueue cascade_state 0 ob5) 5 = Some ob5
   \<and> fst (value_promise (enqueue cascade_state 0 ob5) 0) = Inr (Some ob5)
   \<and> queue_obj_ids (heap (snd (value_promise (enqueue cascade_state 0 ob5) 0)) 0) = []
   \<and> objects (snd (value_promise (enqueue cascade_state 0 ob5) 0)) 5 = None
   \<and> objects (enqueue unregistered_state 0 ob5) 5 = None
   \<and> fst (value_promise (enqueue unregistered_state 0 ob5) 0) = Inl KeyError"
proof -
  have e: "queue_obj_ids (heap cascade_state 0) = []"
    by (simp add: cascade_state_def Promise_init_def)
  have q: "queue_obj_ids (heap (enqueue cascade_state 0 ob5) 0) = [5]"
    by (simp add: enqueue_queue e ob5_def)
  have o: "owner (heap (enqueue cascade_state 0 ob5) 0) = Some Local_Worker"
    by (simp add: enqueue_def register_obj_def cascade_state_def Promise_init_def)
  have s: "objects (enqueue cascade_state 0 ob5) 5 = Some ob5"
    by (simp add: enqueue_objects cascade_state_def Promise_init_def ob5_def)
  have q': "queue_obj_ids (heap (enqueue unregistered_state 0 ob5) 0) = [5]"
    by (simp add: enqueue_queue unregistered_state_def example_promise_def Promise_init_def ob5_def)
  have o': "owner (heap (enqueue unregistered_state 0 ob5) 0) = Some Local_Worker"
    by (simp add: enqueue_def register_obj_def unregistered_state_def example_promise_def
        Promise_init_def)
  have s': "objects (enqueue unregistered_state 0 ob5) 5 = None"
    by (simp add: enqueue_objects unregistered_state_def)
  from value_promise_poll [of cascade_state 0] e
  have 1: "value_promise cascade_state 0 = (Inr None, cascade_state)" by blast
  from value_promise_poll [of "enqueue cascade_state 0 ob5" 0] q o s
  have 2: "fst (value_promise (enqueue cascade_state 0 ob5) 0) = Inr (Some ob5)
           \<and> queue_obj_ids (heap (snd (value_promise (enqueue cascade_state 0 ob5) 0)) 0) = []
           \<and> objects (snd (value_promise (enqueue cascade_state 0 ob5) 0))
               = (objects (enqueue cascade_state 0 ob5))(5 := None)"
    by blast
  then have 3: "objects (snd (value_promise (enqueue cascade_state 0 ob5) 0)) 5 = None"
    by simp
  from value_promise_poll [of "enqueue unregistered_state 0 ob5" 0] q' o' s'
  have 4: "fst (value_promise (enqueue unregistered_state 0 ob5) 0) = Inl KeyError"
    by blast
  from e 1 q o s 2 3 s' 4 show ?thesis by blast
qed

lemma simplify_shape:
  "simplify f p = Inr t \<Longrightarrow>
   \<exists>oi. obj_id_attr p = Some oi \<and> t = [Wire_Int (id_promise p), Wire_Int oi, f (plans p)]"
  by (auto simp: simplify_def get_obj_id_def split: option.splits)

lemma detail_three_tuple: "length t = 3 \<Longrightarrow> detail d w t = Inl IndexError"
  by (simp add: detail_def tuple_get_def)

lemma detail_ok:
  "detail d w t = Inr c \<Longrightarrow> 4 \<le> length t \<and> owner_arg c = t ! 0 \<and> id_arg c = t ! 1"
  by (auto simp: detail_def tuple_get_def split: if_splits sum.splits)

text \<open>
  C9. The claim says that \<open>simplify\<close> produces the tuple of the id, the promised type
  and the serialized plans, and that \<open>detail\<close> rebuilds the promise from it. On a
  promise built by the constructor, here with every argument given, \<open>simplify\<close> raises
  \<open>AttributeError\<close>; and on the tuple the claim describes, as on any tuple of three
  components, \<open>detail\<close> raises \<open>IndexError\<close>.
\<close>

theorem simplify_detail_no_round_trip:
  "simplify example_serde_simplify example_promise = Inl AttributeError
   \<and> detail example_serde_detail Local_Worker [Wire_Int 1, Wire_Str ''T'', Wire_Seq []]
       = Inl IndexError"
  by (simp add: simplify_def get_obj_id_def example_promise_def Promise_init_def
      detail_def tuple_get_def)

section \<open>Properties of a plan firing\<close>



















section \<open>No method of a promise creates the attribute \<open>obj_id\<close>\<close>

lemma enqueue_obj_id_attr:
  "obj_id_attr (heap (enqueue s a ob) b) = obj_id_attr (heap s b)"
  by (simp add: enqueue_def register_obj_def Let_def)

lemma pop_promised_obj_id_attr:
  "pop_promised s ps = (r, s') \<Longrightarrow> obj_id_attr (heap s' b) = obj_id_attr (heap s b)"
proof (induction ps arbitrary: s)
  case Nil
  then show ?case by simp
next
  case (Cons p ps)
  show ?case
  proof (cases "promise_at s p")
    case (Inl e)
    with Cons.prems show ?thesis by simp
  next
    case (Inr c)
    show ?thesis
    proof (cases "queue_obj_ids (heap s c)")
      case Nil
      with Inr Cons.prems show ?thesis by simp
    next
      case (Cons x q)
      let ?s1 = "rm_obj (s\<lparr>heap := (heap s)(c := (heap s c)\<lparr>queue_obj_ids := q\<rparr>)\<rparr>) x"
      from Inr Cons Cons.prems have "pop_promised ?s1 ps = (r, s')" by simp
      from Cons.IH [OF this] show ?thesis by (simp add: rm_obj_def)
    qed
  qed
qed

lemma fire_plan_obj_id_attr:
  "fire_plan ext s pl = (r, s') \<Longrightarrow> obj_id_attr (heap s' b) = obj_id_attr (heap s b)"
  by (auto simp: fire_plan_def split: sum.splits prod.splits option.splits
      dest: pop_promised_obj_id_attr)

lemma value_promise_obj_id_attr:
  "obj_id_attr (heap (snd (value_promise s a)) b) = obj_id_attr (heap s b)"
  by (simp add: value_promise_def rm_obj_def Let_def split: list.splits option.splits)

lemma keep_obj_id_attr:
  "(\<forall>r s'. keep fuel ext s a ob = Some (r, s') \<longrightarrow>
      obj_id_attr (heap s' b) = obj_id_attr (heap s b))"
  and keep_plans_obj_id_attr:
  "(\<forall>r s'. keep_plans fuel ext s ps ob = Some (r, s') \<longrightarrow>
      obj_id_attr (heap s' b) = obj_id_attr (heap s b))"
proof (induction fuel ext s a ob and fuel ext s ps ob rule: keep_keep_plans.induct)
  case (1 fuel ext s a ob)
  then show ?case
    by (auto simp: enqueue_obj_id_attr split: option.splits)
next
  case (2 fuel ext s ob)
  then show ?case by simp
next
  case (3 fuel ext s plan_id rest ob)
  show ?case
  proof (intro allI impI)
    fix r s'
    assume k: "keep_plans fuel ext s (plan_id # rest) ob = Some (r, s')"
    show "obj_id_attr (heap s' b) = obj_id_attr (heap s b)"
    proof (cases "objects s plan_id")
      case None
      with k show ?thesis by simp
    next
      case (Some po)
      show ?thesis
      proof (cases "content_obj po")
        case (Data d)
        with Some k show ?thesis by simp
      next
        case (Child c)
        with Some k show ?thesis by simp
      next
        case (Plan pl)
        show ?thesis
        proof (cases "has_args_fulfilled ext s pl")
          case False
          with Some Plan k have "keep_plans fuel ext s rest ob = Some (r, s')" by simp
          with "3.IH"(3) [OF Some Plan False] show ?thesis by blast
        next
          case True
          obtain fr s1 where f: "fire_plan ext s pl = (fr, s1)" by (cases "fire_plan ext s pl")
          from fire_plan_obj_id_attr [OF f]
          have h1: "obj_id_attr (heap s1 b) = obj_id_attr (heap s b)" .
          show ?thesis
          proof (cases fr)
            case (Inl e)
            with Some Plan True f k h1 show ?thesis by simp
          next
            case (Inr result)
            show ?thesis
            proof (cases "promise_at s1 (promise_out_id pl)")
              case (Inl e)
              with Some Plan True f Inr k h1 show ?thesis by simp
            next
              case out: (Inr out)
              show ?thesis
              proof (cases fuel)
                case 0
                with Some Plan True f Inr out k show ?thesis by simp
              next
                case (Suc fuel')
                show ?thesis
                proof (cases "keep fuel' ext s1 out result")
                  case None
                  with Some Plan True f Inr out Suc k show ?thesis by simp
                next
                  case kk: (Some res)
                  obtain r2 s2 where res: "res = (r2, s2)" by (cases res)
                  from "3.IH"(1) [OF Some Plan True f [symmetric] Inr out Suc] kk res
                  have h2: "obj_id_attr (heap s2 b) = obj_id_attr (heap s1 b)" by blast
                  show ?thesis
                  proof (cases r2)
                    case (Inl e)
                    with Some Plan True f Inr out Suc kk res k h1 h2 show ?thesis by simp
                  next
                    case r2: (Inr v)
                    with Some Plan True f Inr out Suc kk res k
                    have "keep_plans fuel ext s2 rest ob = Some (r, s')" by simp
                    with "3.IH"(2) [OF Some Plan True f [symmetric] Inr out Suc kk res [symmetric] r2]
                    have "obj_id_attr (heap s' b) = obj_id_attr (heap s2 b)" by blast
                    with h1 h2 show ?thesis by simp
                  qed
                qed
              qed
            qed
          qed
        qed
      qed
    qed
  qed
qed

text \<open>
  C10. Whatever is passed to the constructor, also as \<open>obj_id\<close>, the instance has no
  attribute \<open>obj_id\<close>, and \<open>__str__\<close>, \<open>__repr__\<close> and \<open>simplify\<close>, which read it,
  raise \<open>AttributeError\<close>. Neither \<open>keep\<close> nor \<open>value\<close> creates the attribute, so a
  promise without it still has none after any call of them, on this promise or another,
  and the three operations go on raising.
\<close>

theorem promise_init_has_no_obj_id:
  "obj_id_attr (Promise_init own i oi ty ps fresh) = None
   \<and> get_obj_id (Promise_init own i oi ty ps fresh) = Inl AttributeError
   \<and> str_promise (Promise_init own i oi ty ps fresh) = Inl AttributeError
   \<and> repr_promise (Promise_init own i oi ty ps fresh) = Inl AttributeError
   \<and> simplify f (Promise_init own i oi ty ps fresh) = Inl AttributeError
   \<and> (\<forall>s a b fuel ext ob r s'.
         obj_id_attr (heap s b) = None \<and> keep fuel ext s a ob = Some (r, s') \<longrightarrow>
         str_promise (heap s' b) = Inl AttributeError
         \<and> repr_promise (heap s' b) = Inl AttributeError
         \<and> simplify f (heap s' b) = Inl AttributeError)
   \<and> (\<forall>s a b.
         obj_id_attr (heap s b) = None \<longrightarrow>
         str_promise (heap (snd (value_promise s a)) b) = Inl AttributeError
         \<and> repr_promise (heap (snd (value_promise s a)) b) = Inl AttributeError
         \<and> simplify f (heap (snd (value_promise s a)) b) = Inl AttributeError)"
proof -
  have raise: "str_promise p = Inl AttributeError \<and> repr_promise p = Inl AttributeError
      \<and> simplify f p = Inl AttributeError" if "obj_id_attr p = None" for p
    using that by (simp add: get_obj_id_def str_promise_def repr_promise_def simplify_def)
  have init: "obj_id_attr (Promise_init own i oi ty ps fresh) = None"
    by (simp add: Promise_init_def)
  have kept: "obj_id_attr (heap s' b) = None"
    if "obj_id_attr (heap s b) = None \<and> keep fuel ext s a ob = Some (r, s')"
    for s a b fuel ext ob r s'
    using that keep_obj_id_attr [of fuel ext s a ob b] by simp
  have polled: "obj_id_attr (heap (snd (value_promise s a)) b) = None"
    if "obj_id_attr (heap s b) = None" for s a b
    using that by (simp add: value_promise_obj_id_attr)
  from init have "get_obj_id (Promise_init own i oi ty ps fresh) = Inl AttributeError"
    by (simp add: get_obj_id_def)
  with init raise [OF init] kept polled raise show ?thesis
    by blast
qed

theorem promise_init_has_no_obj_id_witness:
  "obj_id_attr (heap unregistered_state 0) = None
   \<and> keep 0 example_ext unregistered_state 0 ob5
       = Some (Inr ob5, enqueue unregistered_state 0 ob5)
   \<and> str_promise (heap (enqueue unregistered_state 0 ob5) 0) = Inl AttributeError
   \<and> simplify example_serde_simplify (heap (enqueue unregistered_state 0 ob5) 0)
       = Inl AttributeError
   \<and> str_promise (heap (snd (value_promise unregistered_state 0)) 0) = Inl AttributeError"
proof -
  have h: "obj_id_attr (heap unregistered_state 0) = None"
    by (simp add: unregistered_state_def example_promise_def Promise_init_def)
  have k: "keep 0 example_ext unregistered_state 0 ob5
             = Some (Inr ob5, enqueue unregistered_state 0 ob5)"
    by (simp add: unregistered_state_def example_promise_def Promise_init_def ob5_def)
  from promise_init_has_no_obj_id [of None None None None None 0 example_serde_simplify] h k
  have "str_promise (heap (enqueue unregistered_state 0 ob5) 0) = Inl AttributeError
        \<and> simplify example_serde_simplify (heap (enqueue unregistered_state 0 ob5) 0)
            = Inl AttributeError
        \<and> str_promise (heap (snd (value_promise unregistered_state 0)) 0) = Inl AttributeError"
    by blast
  with h k show ?thesis by blast
qed

end
